theory Spec2Isabelle
  imports Main
begin

section \<open>ZeroWaste: the data model of \<^verbatim>\<open>src/App.tsx\<close>\<close>

text \<open>
  The application is one React component. Its \<^verbatim>\<open>useState\<close> cells are the fields of one
  state record, every event handler is a function from state to state, and the two
  readings of the system clock made by \<^verbatim>\<open>handleSubmitFoodItem\<close> (\<^verbatim>\<open>Date.now()\<close> and
  \<^verbatim>\<open>new Date()\<close>) are arguments of the handler.

  JavaScript strings are sequences of UTF-16 code units, and the records take the type
  \<open>'u\<close> of the code units of their text as a parameter. The handlers and the persistence
  are modelled on the strings whose code units are all below 256, written as
  \<^typ>\<open>string\<close>, one \<^typ>\<open>char\<close> per code unit; the listing is modelled there and also on
  any type of code unit. A \<^verbatim>\<open>Date\<close> is its time value, the milliseconds since the epoch.
\<close>

datatype UserRole = donor | receiver | ngo | null_role

datatype FoodCategory = fruits | vegetables | dairy | bakery | meals | other

text \<open>The type \<^verbatim>\<open>FoodCategory | 'all'\<close> of the category selection.\<close>

datatype CategoryFilter = cat_all | cat FoodCategory

record 'u UserProfile =
  name :: "'u list"
  role :: UserRole
  description :: "'u list"
  contact :: "'u list"

text \<open>
  The form state \<^verbatim>\<open>newFoodItem\<close>. A \<^verbatim>\<open>FoodItem\<close> is built by spreading the form state
  between \<^verbatim>\<open>id\<close> and \<^verbatim>\<open>postedBy\<close>, \<^verbatim>\<open>postedAt\<close>, so the item record extends the form
  record.
\<close>

record 'u NewFoodItem =
  title :: "'u list"
  description :: "'u list"
  category :: FoodCategory
  quantity :: "'u list"
  expiryDate :: "'u list"
  location :: "'u list"

record 'u FoodItem = "'u NewFoodItem" +
  id_item :: "'u list"
  postedBy :: "'u list"
  postedAt :: int

record 'u AppState =
  currentUser :: "'u UserProfile option"
  searchTerm :: "'u list"
  selectedCategory :: CategoryFilter
  activeTab :: string
  newFoodItem :: "'u NewFoodItem"
  foodItems :: "'u FoodItem list"


section \<open>Platform functions on strings and numbers\<close>

text \<open>
  \<^verbatim>\<open>String.prototype.toLowerCase\<close> on code units below 256: the letters A to Z and the
  Latin-1 capitals U+00C0 to U+00DE, the multiplication sign U+00D7 apart, move up by 32;
  every other code unit of that range is its own lower case.
\<close>

definition lower_unit :: "char \<Rightarrow> char" where
  "lower_unit c =
     (let n = (of_char c :: nat)
      in if (65 \<le> n \<and> n \<le> 90) \<or> (192 \<le> n \<and> n \<le> 222 \<and> n \<noteq> 215)
         then char_of (n + 32) else c)"

definition toLowerCase :: "string \<Rightarrow> string" where
  "toLowerCase s = map lower_unit s"

text \<open>
  Code units above 255, as far as the listing is examined on them: U+0130, the capital I
  with a dot above, and U+0307, the combining dot above. On strings of these units and
  of the units below 256, \<^verbatim>\<open>String.prototype.toLowerCase\<close> replaces every unit by its lower
  case, which for U+0130 is the two units U+0069 U+0307 (its unconditional mapping in
  Unicode's SpecialCasing); U+0307 has no case.
\<close>

datatype code_unit = Low char | U0130 | U0307

fun lower_code_unit :: "code_unit \<Rightarrow> code_unit list" where
  "lower_code_unit (Low c) = [Low (lower_unit c)]"
| "lower_code_unit U0130 = [Low (CHR ''i''), U0307]"
| "lower_code_unit U0307 = [U0307]"

definition toLowerCase_units :: "code_unit list \<Rightarrow> code_unit list" where
  "toLowerCase_units s = concat (map lower_code_unit s)"

definition units :: "string \<Rightarrow> code_unit list" where
  "units s = map Low s"

text \<open>
  \<^verbatim>\<open>String.prototype.includes\<close>: the search string occurs at some position of the
  receiver. \<open>starts_with s t\<close> compares \<open>t\<close> with the code units at the front of \<open>s\<close>.
\<close>

fun starts_with :: "'a list \<Rightarrow> 'a list \<Rightarrow> bool" where
  "starts_with s [] = True"
| "starts_with [] (y # ys) = False"
| "starts_with (x # xs) (y # ys) = (x = y \<and> starts_with xs ys)"

fun includes_str :: "'a list \<Rightarrow> 'a list \<Rightarrow> bool" where
  "includes_str [] t = starts_with [] t"
| "includes_str (x # xs) t = (starts_with (x # xs) t \<or> includes_str xs t)"

text \<open>
  \<^verbatim>\<open>Number.prototype.toString\<close> on an integral number below \<open>10\<^sup>2\<^sup>1\<close> in absolute value
  (every clock reading is): its decimal digits, after a minus sign when negative.
\<close>

definition digit_char :: "nat \<Rightarrow> char" where
  "digit_char d = char_of (48 + d)"

fun decimal :: "nat \<Rightarrow> string" where
  "decimal n = (if n < 10 then [digit_char n] else decimal (n div 10) @ [digit_char (n mod 10)])"

declare decimal.simps [simp del]

definition Number_toString :: "int \<Rightarrow> string" where
  "Number_toString i = (if i < 0 then CHR ''-'' # decimal (nat (- i)) else decimal (nat i))"


section \<open>The event handlers\<close>

text \<open>The values of the \<^verbatim>\<open>useState\<close> cells at mount, for a given initial catalog.\<close>

definition initial_form :: "char NewFoodItem" where
  "initial_form =
     \<lparr>title = '''', description = '''', category = fruits, quantity = '''',
      expiryDate = '''', location = ''''\<rparr>"

definition initial_state :: "char FoodItem list \<Rightarrow> char AppState" where
  "initial_state items =
     \<lparr>currentUser = None, searchTerm = '''', selectedCategory = cat_all,
      activeTab = ''listings'', newFoodItem = initial_form, foodItems = items\<rparr>"

definition login_profile :: "UserRole \<Rightarrow> char UserProfile" where
  "login_profile r =
     \<lparr>name = (if r = donor then ''Food Donor''
              else if r = receiver then ''Food Receiver'' else ''Local NGO''),
      role = r,
      description = (if r = donor then ''Restaurant owner donating excess food''
                     else if r = receiver then ''Community center feeding those in need''
                     else ''Non-profit organization redistributing food''),
      contact = ''contact@example.com''\<rparr>"

definition handleLogin :: "UserRole \<Rightarrow> char AppState \<Rightarrow> char AppState" where
  "handleLogin r s = s\<lparr>currentUser := Some (login_profile r)\<rparr>"

definition handleLogout :: "char AppState \<Rightarrow> char AppState" where
  "handleLogout s = s\<lparr>currentUser := None\<rparr>"

text \<open>
  \<^verbatim>\<open>handleInputChange\<close> writes the value under the \<^verbatim>\<open>name\<close> attribute of the input that
  fired. The inputs of the form carry the five names below; the record has no place for a
  property of another name, and the form state is left as it is then.
\<close>

definition handleInputChange :: "string \<Rightarrow> string \<Rightarrow> char AppState \<Rightarrow> char AppState" where
  "handleInputChange nm v s =
     s\<lparr>newFoodItem :=
         (let prev = newFoodItem s
          in if nm = ''title'' then prev\<lparr>title := v\<rparr>
             else if nm = ''description'' then prev\<lparr>NewFoodItem.description := v\<rparr>
             else if nm = ''quantity'' then prev\<lparr>quantity := v\<rparr>
             else if nm = ''expiryDate'' then prev\<lparr>expiryDate := v\<rparr>
             else if nm = ''location'' then prev\<lparr>location := v\<rparr>
             else prev)\<rparr>"

definition handleCategoryChange :: "FoodCategory \<Rightarrow> char AppState \<Rightarrow> char AppState" where
  "handleCategoryChange v s = s\<lparr>newFoodItem := (newFoodItem s)\<lparr>category := v\<rparr>\<rparr>"

text \<open>
  \<^verbatim>\<open>currentUser?.name || 'Anonymous'\<close>: the name of the active user, and \<^verbatim>\<open>'Anonymous'\<close>
  when there is no user or the name is the empty string (which is falsy).
\<close>

definition poster_name :: "char UserProfile option \<Rightarrow> string" where
  "poster_name u =
     (case u of None \<Rightarrow> ''Anonymous''
      | Some p \<Rightarrow> if name p = [] then ''Anonymous'' else name p)"

text \<open>The object literal \<^verbatim>\<open>newItem\<close>; \<open>now\<close> is \<^verbatim>\<open>Date.now()\<close>, \<open>at\<close> is \<^verbatim>\<open>new Date()\<close>.\<close>

definition newItem :: "int \<Rightarrow> int \<Rightarrow> char AppState \<Rightarrow> char FoodItem" where
  "newItem now at s =
     NewFoodItem.extend (newFoodItem s)
       (FoodItem.fields (Number_toString now) (poster_name (currentUser s)) at)"

definition handleSubmitFoodItem :: "int \<Rightarrow> int \<Rightarrow> char AppState \<Rightarrow> char AppState" where
  "handleSubmitFoodItem now at s =
     s\<lparr>foodItems := foodItems s @ [newItem now at s],
       newFoodItem :=
         \<lparr>title = '''', description = '''', category = fruits, quantity = '''',
          expiryDate = '''', location = ''''\<rparr>,
       activeTab := ''listings''\<rparr>"

text \<open>The derived value \<^verbatim>\<open>filteredItems\<close>, computed from the state at every render.\<close>

definition filteredItems :: "char AppState \<Rightarrow> char FoodItem list" where
  "filteredItems s =
     filter (\<lambda>item.
        let matchesSearch =
              includes_str (toLowerCase (title item)) (toLowerCase (searchTerm s)) \<or>
              includes_str (toLowerCase (NewFoodItem.description item)) (toLowerCase (searchTerm s));
            matchesCategory =
              (selectedCategory s = cat_all \<or> cat (category item) = selectedCategory s)
        in matchesSearch \<and> matchesCategory)
       (foodItems s)"

text \<open>
  The same derived value on text of any type of code unit, with the lower-casing of the
  platform as the parameter \<open>lower\<close>: what \<^verbatim>\<open>filteredItems\<close> is on the free text, of any
  code units, that the title, the description and the search field can hold.
\<close>

definition filteredItems_on :: "('u list \<Rightarrow> 'u list) \<Rightarrow> 'u AppState \<Rightarrow> 'u FoodItem list" where
  "filteredItems_on lower s =
     filter (\<lambda>item.
        let matchesSearch =
              includes_str (lower (title item)) (lower (searchTerm s)) \<or>
              includes_str (lower (NewFoodItem.description item)) (lower (searchTerm s));
            matchesCategory =
              (selectedCategory s = cat_all \<or> cat (category item) = selectedCategory s)
        in matchesSearch \<and> matchesCategory)
       (foodItems s)"

text \<open>The two items of the seed catalog; \<open>t1\<close> and \<open>t2\<close> are their \<^verbatim>\<open>new Date()\<close>.\<close>

definition seed_catalog :: "int \<Rightarrow> int \<Rightarrow> char FoodItem list" where
  "seed_catalog t1 t2 =
     [\<lparr>title = ''Fresh Apples'',
       description = ''Box of organic apples, slightly bruised but perfectly good'',
       category = fruits, quantity = ''5 kg'', expiryDate = ''2023-12-15'',
       location = ''Downtown Market'',
       id_item = ''1'', postedBy = ''Local Grocer'', postedAt = t1\<rparr>,
      \<lparr>title = ''Day-old Bread'',
       description = ''Assorted bakery items from yesterday'',
       category = bakery, quantity = ''10 loaves'', expiryDate = ''2023-12-10'',
       location = ''Main Street Bakery'',
       id_item = ''2'', postedBy = ''Community Kitchen'', postedAt = t2\<rparr>]"

text \<open>
  A state for the listing on wider code units: a donor has posted an item whose title is
  the one letter U+0130, and the search field holds the letter i.
\<close>

definition dotted_item :: "code_unit FoodItem" where
  "dotted_item =
     \<lparr>title = [U0130], description = units ''Flatbread'', category = bakery,
      quantity = units ''2'', expiryDate = units ''2024-01-05'', location = units ''Market'',
      id_item = units ''1700000000000'', postedBy = units ''Food Donor'',
      postedAt = 1700000000000\<rparr>"

definition dotted_state :: "code_unit AppState" where
  "dotted_state =
     \<lparr>currentUser =
        Some \<lparr>name = units ''Food Donor'', role = donor,
              description = units ''Restaurant owner donating excess food'',
              contact = units ''contact@example.com''\<rparr>,
      searchTerm = units ''i'', selectedCategory = cat_all, activeTab = ''listings'',
      newFoodItem =
        \<lparr>title = [], description = [], category = fruits, quantity = [],
         expiryDate = [], location = []\<rparr>,
      foodItems = [dotted_item]\<rparr>"


section \<open>Events and reachable states\<close>

text \<open>
  Every handler the component binds to an input, as one event type. The last three are
  the inline handlers of the tab buttons, the search field and the category pills.
\<close>

datatype event =
    Login UserRole
  | Logout
  | InputChange string string
  | CategoryChange FoodCategory
  | Submit int int
  | SetActiveTab string
  | SetSearchTerm string
  | SetSelectedCategory CategoryFilter

fun step :: "char AppState \<Rightarrow> event \<Rightarrow> char AppState" where
  "step s (Login r) = handleLogin r s"
| "step s Logout = handleLogout s"
| "step s (InputChange nm v) = handleInputChange nm v s"
| "step s (CategoryChange c) = handleCategoryChange c s"
| "step s (Submit now at) = handleSubmitFoodItem now at s"
| "step s (SetActiveTab t) = s\<lparr>activeTab := t\<rparr>"
| "step s (SetSearchTerm t) = s\<lparr>searchTerm := t\<rparr>"
| "step s (SetSelectedCategory c) = s\<lparr>selectedCategory := c\<rparr>"

text \<open>The state after a sequence of events, from the state at mount.\<close>

definition run :: "char FoodItem list \<Rightarrow> event list \<Rightarrow> char AppState" where
  "run items evs = foldl step (initial_state items) evs"

text \<open>The inputs of the form that carry the \<^verbatim>\<open>required\<close> attribute.\<close>

definition required_filled :: "char NewFoodItem \<Rightarrow> bool" where
  "required_filled d \<longleftrightarrow>
     title d \<noteq> [] \<and> NewFoodItem.description d \<noteq> [] \<and> quantity d \<noteq> [] \<and>
     expiryDate d \<noteq> [] \<and> location d \<noteq> []"

text \<open>A session used by the closed instances below: a donor fills the form.\<close>

definition donor_session :: "event list" where
  "donor_session =
     [Login donor, SetActiveTab ''post'', InputChange ''title'' ''Soup'',
      InputChange ''description'' ''Two pots of lentil soup'', CategoryChange meals,
      InputChange ''quantity'' ''8 l'', InputChange ''expiryDate'' ''2024-01-05'',
      InputChange ''location'' ''Canteen'']"

text \<open>The \<^verbatim>\<open>Date.now()\<close> readings of the submissions of an event sequence, in order.\<close>

fun submit_times :: "event list \<Rightarrow> int list" where
  "submit_times [] = []"
| "submit_times (Submit now at # evs) = now # submit_times evs"
| "submit_times (e # evs) = submit_times evs"

text \<open>A second session: two posts at different clock readings, by two users.\<close>

definition two_posts :: "event list" where
  "two_posts = donor_session @ [Submit 5 6, Logout, Login ngo, Submit 7 8]"


section \<open>JSON as the platform defines it\<close>

text \<open>
  The catalog is written with \<^verbatim>\<open>JSON.stringify\<close> and read back with \<^verbatim>\<open>JSON.parse\<close>. Both
  are functions of the platform, modelled here after ECMA-262 (the JSON grammar of
  ECMA-404) on the values a catalog is made of.

  A value is \<^verbatim>\<open>null\<close>, a boolean, a number, a string, a \<^verbatim>\<open>Date\<close>, an array or an object
  whose properties are kept in creation order. The model does not compute with numbers:
  a number is kept as the literal that denotes it (no catalog holds one). The order in
  which a real engine enumerates properties whose names are array indices is not modelled
  (no item has such a property).
\<close>

datatype js_value =
    JNull
  | JBool bool
  | JNum string
  | JStr string
  | JDate int
  | JArr "js_value list"
  | JObj "(string \<times> js_value) list"

text \<open>
  \<^verbatim>\<open>JSON.parse\<close> throws a \<^verbatim>\<open>SyntaxError\<close> on a text outside the grammar. \<open>NotModelled\<close> is
  not an outcome of the platform: it marks the texts this model has no answer for, those
  with an escape \<^verbatim>\<open>\uXXXX\<close> of a code unit above 255.
\<close>

datatype js_error = SyntaxError | NotModelled

subsection \<open>Tokens\<close>

datatype token = TLBrack | TRBrack | TLBrace | TRBrace | TComma | TColon | TScalar js_value

text \<open>JSON white space is tab, line feed, carriage return and space.\<close>

definition is_ws :: "char \<Rightarrow> bool" where
  "is_ws c \<longleftrightarrow>
     (of_char c :: nat) = 9 \<or> (of_char c :: nat) = 10 \<or> (of_char c :: nat) = 13 \<or>
     (of_char c :: nat) = 32"

definition is_digit :: "char \<Rightarrow> bool" where
  "is_digit c \<longleftrightarrow> 48 \<le> (of_char c :: nat) \<and> (of_char c :: nat) \<le> 57"

definition hex_digit :: "nat \<Rightarrow> char" where
  "hex_digit d = (if d < 10 then char_of (48 + d) else char_of (87 + d))"

definition hex_value :: "char \<Rightarrow> nat option" where
  "hex_value c =
     (let n = (of_char c :: nat)
      in if 48 \<le> n \<and> n \<le> 57 then Some (n - 48)
         else if 97 \<le> n \<and> n \<le> 102 then Some (n - 87)
         else if 65 \<le> n \<and> n \<le> 70 then Some (n - 55)
         else None)"

fun hex4 :: "string \<Rightarrow> nat option" where
  "hex4 [a, b, c, d] =
     (case (hex_value a, hex_value b, hex_value c, hex_value d) of
        (Some p, Some q, Some r, Some s) \<Rightarrow> Some (((p * 16 + q) * 16 + r) * 16 + s)
      | _ \<Rightarrow> None)"
| "hex4 _ = None"

text \<open>The character after a backslash, other than \<^verbatim>\<open>u\<close>, and the code unit it stands for.\<close>

definition unescape :: "char \<Rightarrow> char option" where
  "unescape e =
     (if e = CHR ''\"'' then Some (CHR ''\"'')
      else if e = CHR 0x5C then Some (CHR 0x5C)
      else if e = CHR ''/'' then Some (CHR ''/'')
      else if e = CHR ''b'' then Some (CHR 0x08)
      else if e = CHR ''f'' then Some (CHR 0x0C)
      else if e = CHR ''n'' then Some (CHR 0x0A)
      else if e = CHR ''r'' then Some (CHR 0x0D)
      else if e = CHR ''t'' then Some (CHR 0x09)
      else None)"

definition cons_result :: "'a \<Rightarrow> js_error + ('a list \<times> 'b) \<Rightarrow> js_error + ('a list \<times> 'b)" where
  "cons_result x r = (case r of Inl e \<Rightarrow> Inl e | Inr (xs, rest) \<Rightarrow> Inr (x # xs, rest))"

text \<open>
  The code units of a string literal after its opening quote, up to the closing quote,
  and the text that follows. A control character below U+0020 must be escaped.
\<close>

fun string_body :: "string \<Rightarrow> js_error + (string \<times> string)" where
  "string_body [] = Inl SyntaxError"
| "string_body (c # cs) =
     (if c = CHR ''\"'' then Inr ([], cs)
      else if c = CHR 0x5C then
        (case cs of
           [] \<Rightarrow> Inl SyntaxError
         | e # es \<Rightarrow>
             if e = CHR ''u'' then
               (case hex4 (take 4 es) of
                  None \<Rightarrow> Inl SyntaxError
                | Some n \<Rightarrow>
                    if n < 256 then cons_result (char_of n) (string_body (drop 4 es))
                    else Inl NotModelled)
             else
               (case unescape e of
                  None \<Rightarrow> Inl SyntaxError
                | Some ch \<Rightarrow> cons_result ch (string_body es)))
      else if (of_char c :: nat) < 32 then Inl SyntaxError
      else cons_result c (string_body cs))"

text \<open>
  A number literal: an optional minus sign, an integer part without a leading zero
  (unless it is the single digit zero), an optional fraction and an optional exponent.
  Each scanner returns the text after the part it read.
\<close>

definition scan_int :: "string \<Rightarrow> string option" where
  "scan_int s =
     (let ds = takeWhile is_digit s
      in if ds = [] \<or> (take 1 ds = ''0'' \<and> 1 < length ds) then None
         else Some (dropWhile is_digit s))"

definition scan_frac :: "string \<Rightarrow> string option" where
  "scan_frac s =
     (if take 1 s = ''.'' then
        (if takeWhile is_digit (drop 1 s) = [] then None
         else Some (dropWhile is_digit (drop 1 s)))
      else Some s)"

definition scan_exp :: "string \<Rightarrow> string option" where
  "scan_exp s =
     (if take 1 s = ''e'' \<or> take 1 s = ''E'' then
        (let r = (if take 1 (drop 1 s) = ''+'' \<or> take 1 (drop 1 s) = ''-''
                  then drop 2 s else drop 1 s)
         in if takeWhile is_digit r = [] then None else Some (dropWhile is_digit r))
      else Some s)"

definition scan_number :: "string \<Rightarrow> (string \<times> string) option" where
  "scan_number s =
     (case scan_int (if take 1 s = ''-'' then drop 1 s else s) of
        None \<Rightarrow> None
      | Some s1 \<Rightarrow>
          (case scan_frac s1 of
             None \<Rightarrow> None
           | Some s2 \<Rightarrow>
               (case scan_exp s2 of
                  None \<Rightarrow> None
                | Some rest \<Rightarrow> Some (take (length s - length rest) s, rest))))"

text \<open>Every scanner consumes text, which is what the termination of the lexer needs.\<close>

lemma dropWhile_shorter: "takeWhile P xs \<noteq> [] \<Longrightarrow> length (dropWhile P xs) < length xs"
  by (cases xs) (auto simp: le_imp_less_Suc length_dropWhile_le split: if_splits)

lemma scan_int_shorter: "scan_int s = Some r \<Longrightarrow> length r < length s"
  unfolding scan_int_def Let_def
  by (cases "takeWhile is_digit s = []") (auto simp: dropWhile_shorter split: if_split_asm)

lemma scan_frac_shorter: "scan_frac s = Some r \<Longrightarrow> length r \<le> length s"
  unfolding scan_frac_def
  using length_dropWhile_le [of is_digit "drop 1 s"]
  by (auto split: if_split_asm)

lemma scan_exp_shorter: "scan_exp s = Some r \<Longrightarrow> length r \<le> length s"
  unfolding scan_exp_def Let_def
  using length_dropWhile_le [of is_digit "drop 1 s"] length_dropWhile_le [of is_digit "drop 2 s"]
  by (auto split: if_split_asm)

lemma scan_number_shorter:
  assumes "scan_number s = Some (l, rest)"
  shows "length rest < length s"
proof -
  from assms obtain s1 s2 where
    a: "scan_int (if take 1 s = ''-'' then drop 1 s else s) = Some s1" and
    b: "scan_frac s1 = Some s2" and c: "scan_exp s2 = Some rest"
    unfolding scan_number_def by (auto split: option.splits)
  have "length s1 < length (if take 1 s = ''-'' then drop 1 s else s)"
    using a by (rule scan_int_shorter)
  then have "length s1 < length s" by (simp split: if_split_asm)
  with scan_frac_shorter [OF b] scan_exp_shorter [OF c] show ?thesis by simp
qed

lemma cons_result_Inr:
  "cons_result x r = Inr (ys, rest) \<longleftrightarrow> (\<exists>xs. r = Inr (xs, rest) \<and> ys = x # xs)"
  by (auto simp: cons_result_def split: sum.splits)

lemma string_body_shorter:
  "string_body cs = Inr (s, rest) \<Longrightarrow> length rest < length cs"
proof (induction "length cs" arbitrary: cs s rule: less_induct)
  case less
  have step: "cons_result x (string_body y) = Inr (s, rest) \<Longrightarrow>
              length y < length cs \<longrightarrow> length rest < length cs" for x y
    using less.hyps [of y] by (auto simp: cons_result_Inr)
  show ?case
  proof (cases cs)
    case Nil
    with less.prems show ?thesis by simp
  next
    case (Cons c cs')
    with less.prems show ?thesis
      by (auto split: if_splits list.splits option.splits dest!: step)
  qed
qed

definition cons_token :: "token \<Rightarrow> js_error + token list \<Rightarrow> js_error + token list" where
  "cons_token t r = (case r of Inl e \<Rightarrow> Inl e | Inr ts \<Rightarrow> Inr (t # ts))"

function lex :: "string \<Rightarrow> js_error + token list" where
  "lex [] = Inr []"
| "lex (c # cs) =
     (if is_ws c then lex cs
      else if c = CHR ''['' then cons_token TLBrack (lex cs)
      else if c = CHR '']'' then cons_token TRBrack (lex cs)
      else if c = CHR ''{'' then cons_token TLBrace (lex cs)
      else if c = CHR ''}'' then cons_token TRBrace (lex cs)
      else if c = CHR '','' then cons_token TComma (lex cs)
      else if c = CHR '':'' then cons_token TColon (lex cs)
      else if c = CHR ''\"'' then
        (case string_body cs of
           Inl e \<Rightarrow> Inl e
         | Inr (s, rest) \<Rightarrow> cons_token (TScalar (JStr s)) (lex rest))
      else if c = CHR ''t'' then
        (if take 3 cs = ''rue'' then cons_token (TScalar (JBool True)) (lex (drop 3 cs))
         else Inl SyntaxError)
      else if c = CHR ''f'' then
        (if take 4 cs = ''alse'' then cons_token (TScalar (JBool False)) (lex (drop 4 cs))
         else Inl SyntaxError)
      else if c = CHR ''n'' then
        (if take 3 cs = ''ull'' then cons_token (TScalar JNull) (lex (drop 3 cs))
         else Inl SyntaxError)
      else
        (case scan_number (c # cs) of
           None \<Rightarrow> Inl SyntaxError
         | Some (l, rest) \<Rightarrow> cons_token (TScalar (JNum l)) (lex rest)))"
  by pat_completeness auto
termination
proof (relation "measure length")
  show "wf (measure length)" by simp
next
  fix c cs x s rest
  assume "string_body cs = Inr x" "(s, rest) = x"
  then have "length rest < length cs" using string_body_shorter [of cs s rest] by simp
  then show "(rest, c # cs) \<in> measure length" by simp
next
  fix c cs x l rest
  assume "scan_number (c # cs) = Some x" "(l, rest) = x"
  then have "length rest < length (c # cs)" using scan_number_shorter [of "c # cs" l rest] by simp
  then show "(rest, c # cs) \<in> measure length" by simp
qed simp_all

declare lex.simps [simp del]

subsection \<open>The parser\<close>

text \<open>
  The grammar over tokens (a value is a scalar, an array \<^verbatim>\<open>[ v, ..., v ]\<close> or an object
  \<^verbatim>\<open>{ "k": v, ..., "k": v }\<close>; a text is exactly one value) is recognised by a pushdown
  automaton that reads one token at a time. A frame of the stack is a container under
  construction: an array with the elements read so far, an object with the properties
  read so far, or an object with, in addition, the key whose value is awaited.
\<close>

datatype frame =
    ArrF "js_value list"
  | ObjF "(string \<times> js_value) list"
  | KeyF "(string \<times> js_value) list" string

datatype expect = Value | ValueOrEnd | Key | KeyOrEnd | Colon | CommaOrEnd

datatype pstate = Parsing expect "frame list" | Done js_value | Failed

text \<open>A property read twice keeps its place and takes the later value.\<close>

fun put :: "(string \<times> js_value) list \<Rightarrow> string \<Rightarrow> js_value \<Rightarrow> (string \<times> js_value) list" where
  "put [] k v = [(k, v)]"
| "put (m # ms) k v = (if fst m = k then (k, v) # ms else m # put ms k v)"

text \<open>A complete value goes to the container on top of the stack, or is the result.\<close>

fun deliver :: "js_value \<Rightarrow> frame list \<Rightarrow> pstate" where
  "deliver v [] = Done v"
| "deliver v (ArrF vs # st) = Parsing CommaOrEnd (ArrF (vs @ [v]) # st)"
| "deliver v (KeyF ms k # st) = Parsing CommaOrEnd (ObjF (put ms k v) # st)"
| "deliver v (ObjF ms # st) = Failed"

fun open_value :: "frame list \<Rightarrow> token \<Rightarrow> pstate" where
  "open_value st (TScalar v) = deliver v st"
| "open_value st TLBrack = Parsing ValueOrEnd (ArrF [] # st)"
| "open_value st TLBrace = Parsing KeyOrEnd (ObjF [] # st)"
| "open_value st _ = Failed"

fun close_array :: "frame list \<Rightarrow> pstate" where
  "close_array (ArrF vs # st) = deliver (JArr vs) st"
| "close_array _ = Failed"

fun close_object :: "frame list \<Rightarrow> pstate" where
  "close_object (ObjF ms # st) = deliver (JObj ms) st"
| "close_object _ = Failed"

fun take_key :: "frame list \<Rightarrow> token \<Rightarrow> pstate" where
  "take_key (ObjF ms # st) (TScalar (JStr k)) = Parsing Colon (KeyF ms k # st)"
| "take_key _ _ = Failed"

fun next_item :: "frame list \<Rightarrow> pstate" where
  "next_item (ArrF vs # st) = Parsing Value (ArrF vs # st)"
| "next_item (ObjF ms # st) = Parsing Key (ObjF ms # st)"
| "next_item _ = Failed"

fun feed :: "pstate \<Rightarrow> token \<Rightarrow> pstate" where
  "feed (Parsing Value st) t = open_value st t"
| "feed (Parsing ValueOrEnd st) t = (if t = TRBrack then close_array st else open_value st t)"
| "feed (Parsing Key st) t = take_key st t"
| "feed (Parsing KeyOrEnd st) t = (if t = TRBrace then close_object st else take_key st t)"
| "feed (Parsing Colon st) t = (if t = TColon then Parsing Value st else Failed)"
| "feed (Parsing CommaOrEnd st) t =
     (if t = TComma then next_item st
      else if t = TRBrack then close_array st
      else if t = TRBrace then close_object st
      else Failed)"
| "feed (Done v) t = Failed"
| "feed Failed t = Failed"

definition JSON_parse :: "string \<Rightarrow> js_error + js_value" where
  "JSON_parse text =
     (case lex text of
        Inl e \<Rightarrow> Inl e
      | Inr ts \<Rightarrow>
          (case foldl feed (Parsing Value []) ts of
             Done v \<Rightarrow> Inr v
           | _ \<Rightarrow> Inl SyntaxError))"

subsection \<open>The serialiser\<close>

text \<open>
  \<^verbatim>\<open>QuoteJSONString\<close>: the quote, the backslash and the control characters are escaped,
  the control characters without a short escape as \<^verbatim>\<open>\u00XX\<close> in lower-case hexadecimal.
\<close>

definition quote_unit :: "char \<Rightarrow> string" where
  "quote_unit c =
     (if c = CHR 0x08 then [CHR 0x5C, CHR ''b'']
      else if c = CHR 0x09 then [CHR 0x5C, CHR ''t'']
      else if c = CHR 0x0A then [CHR 0x5C, CHR ''n'']
      else if c = CHR 0x0C then [CHR 0x5C, CHR ''f'']
      else if c = CHR 0x0D then [CHR 0x5C, CHR ''r'']
      else if c = CHR ''\"'' then [CHR 0x5C, CHR ''\"'']
      else if c = CHR 0x5C then [CHR 0x5C, CHR 0x5C]
      else if (of_char c :: nat) < 32 then
        [CHR 0x5C, CHR ''u'', CHR ''0'', CHR ''0'',
         hex_digit ((of_char c :: nat) div 16), hex_digit ((of_char c :: nat) mod 16)]
      else [c])"

definition quote :: "string \<Rightarrow> string" where
  "quote s = CHR ''\"'' # concat (map quote_unit s) @ [CHR ''\"'']"

fun comma_separated :: "string list \<Rightarrow> string" where
  "comma_separated [] = []"
| "comma_separated (x # xs) = x @ concat (map (\<lambda>y. CHR '','' # y) xs)"

text \<open>
  \<^verbatim>\<open>Date.prototype.toISOString\<close>, which \<^verbatim>\<open>toJSON\<close> calls: the time value in UTC as
  \<^verbatim>\<open>YYYY-MM-DDTHH:mm:ss.sssZ\<close>, the year with a sign and six digits when outside 0 to 9999.
  \<open>civil\<close> is the proleptic Gregorian date of a day number counted from 1970-01-01. The
  time value is taken to be in the range of a valid \<^verbatim>\<open>Date\<close>, as every \<^verbatim>\<open>new Date()\<close> is.
\<close>

definition pad :: "nat \<Rightarrow> nat \<Rightarrow> string" where
  "pad w n = replicate (w - length (decimal n)) (CHR ''0'') @ decimal n"

definition civil :: "int \<Rightarrow> int \<times> int \<times> int" where
  "civil day =
     (let z = day + 719468;
          era = z div 146097;
          doe = z mod 146097;
          yoe = (doe - doe div 1460 + doe div 36524 - doe div 146096) div 365;
          doy = doe - (365 * yoe + yoe div 4 - yoe div 100);
          mp = (5 * doy + 2) div 153;
          d = doy - (153 * mp + 2) div 5 + 1;
          m = (if mp < 10 then mp + 3 else mp - 9);
          y = yoe + era * 400 + (if m \<le> 2 then 1 else 0)
      in (y, m, d))"

definition year_string :: "int \<Rightarrow> string" where
  "year_string y =
     (if 0 \<le> y \<and> y \<le> 9999 then pad 4 (nat y)
      else (if y < 0 then CHR ''-'' else CHR ''+'') # pad 6 (nat \<bar>y\<bar>))"

definition toISOString :: "int \<Rightarrow> string" where
  "toISOString t =
     (let ms = nat (t mod 86400000);
          ymd = civil (t div 86400000)
      in year_string (fst ymd) @ ''-'' @ pad 2 (nat (fst (snd ymd))) @ ''-'' @
         pad 2 (nat (snd (snd ymd))) @ ''T'' @
         pad 2 (ms div 3600000) @ '':'' @ pad 2 (ms div 60000 mod 60) @ '':'' @
         pad 2 (ms div 1000 mod 60) @ ''.'' @ pad 3 (ms mod 1000) @ ''Z'')"

text \<open>\<^verbatim>\<open>JSON.stringify\<close> with one argument: no replacer, no indentation.\<close>

fun JSON_stringify :: "js_value \<Rightarrow> string" where
  "JSON_stringify JNull = ''null''"
| "JSON_stringify (JBool b) = (if b then ''true'' else ''false'')"
| "JSON_stringify (JNum l) = l"
| "JSON_stringify (JStr s) = quote s"
| "JSON_stringify (JDate t) = quote (toISOString t)"
| "JSON_stringify (JArr vs) = ''['' @ comma_separated (map JSON_stringify vs) @ '']''"
| "JSON_stringify (JObj ms) =
     ''{'' @ comma_separated (map (\<lambda>m. quote (fst m) @ '':'' @ JSON_stringify (snd m)) ms) @ ''}''"

subsection \<open>What a value is after a round trip\<close>

text \<open>
  A \<^verbatim>\<open>Date\<close> comes back as the string \<^verbatim>\<open>toISOString\<close> made of it; everything else comes
  back as it was. The round trip is proved for the values without numbers whose objects
  have no property twice, which is what every catalog is.
\<close>

fun reloaded :: "js_value \<Rightarrow> js_value" where
  "reloaded (JDate t) = JStr (toISOString t)"
| "reloaded (JArr vs) = JArr (map reloaded vs)"
| "reloaded (JObj ms) = JObj (map (\<lambda>m. (fst m, reloaded (snd m))) ms)"
| "reloaded v = v"

fun storable :: "js_value \<Rightarrow> bool" where
  "storable (JNum l) = False"
| "storable (JArr vs) = list_all storable vs"
| "storable (JObj ms) = (distinct (map fst ms) \<and> list_all (\<lambda>m. storable (snd m)) ms)"
| "storable v = True"

text \<open>The tokens of the serialised text of a value, for the proof of the round trip.\<close>

fun separated :: "token list list \<Rightarrow> token list" where
  "separated [] = []"
| "separated (x # xs) = x @ concat (map (\<lambda>y. TComma # y) xs)"

fun tokens_of :: "js_value \<Rightarrow> token list" where
  "tokens_of (JDate t) = [TScalar (JStr (toISOString t))]"
| "tokens_of (JArr vs) = TLBrack # separated (map tokens_of vs) @ [TRBrack]"
| "tokens_of (JObj ms) =
     TLBrace # separated (map (\<lambda>m. TScalar (JStr (fst m)) # TColon # tokens_of (snd m)) ms) @
     [TRBrace]"
| "tokens_of v = [TScalar v]"

definition prepend :: "token list \<Rightarrow> js_error + token list \<Rightarrow> js_error + token list" where
  "prepend ts r = (case r of Inl e \<Rightarrow> Inl e | Inr ts' \<Rightarrow> Inr (ts @ ts'))"


section \<open>Persistence of the catalog\<close>

text \<open>
  \<^verbatim>\<open>localStorage\<close> is a map from keys to strings: \<^verbatim>\<open>getItem\<close> is the lookup, with \<^verbatim>\<open>null\<close>
  for a missing key, and \<^verbatim>\<open>setItem\<close> is the update, taken to succeed.

  At run time an item is an object with its nine properties in the order of the object
  literal that made it, and a category is its string. \<open>item_object\<close> takes the
  representation of the creation date as a parameter: a \<^verbatim>\<open>Date\<close> in an item made by the
  component, a string in an item read back from the store.
\<close>

type_synonym storage = "string \<Rightarrow> string option"

fun category_name :: "FoodCategory \<Rightarrow> string" where
  "category_name fruits = ''fruits''"
| "category_name vegetables = ''vegetables''"
| "category_name dairy = ''dairy''"
| "category_name bakery = ''bakery''"
| "category_name meals = ''meals''"
| "category_name other = ''other''"

definition item_object :: "(int \<Rightarrow> js_value) \<Rightarrow> char FoodItem \<Rightarrow> js_value" where
  "item_object date item =
     JObj [(''id'', JStr (id_item item)),
           (''title'', JStr (title item)),
           (''description'', JStr (NewFoodItem.description item)),
           (''category'', JStr (category_name (category item))),
           (''quantity'', JStr (quantity item)),
           (''expiryDate'', JStr (expiryDate item)),
           (''location'', JStr (location item)),
           (''postedBy'', JStr (postedBy item)),
           (''postedAt'', date (postedAt item))]"

definition catalog_value :: "char FoodItem list \<Rightarrow> js_value" where
  "catalog_value items = JArr (map (item_object JDate) items)"

text \<open>
  The initializer of the \<^verbatim>\<open>foodItems\<close> state. \<open>has_window\<close> is
  \<^verbatim>\<open>typeof window !== 'undefined'\<close>; \<open>t1\<close> and \<open>t2\<close> are the clock readings of the two
  \<^verbatim>\<open>new Date()\<close> of the seed. The condition \<^verbatim>\<open>savedItems ? ... : ...\<close> is false for \<^verbatim>\<open>null\<close>
  and for the empty string. Nothing catches what \<^verbatim>\<open>JSON.parse\<close> throws, and nothing checks
  the value it returns.
\<close>

definition foodItems_init :: "bool \<Rightarrow> storage \<Rightarrow> int \<Rightarrow> int \<Rightarrow> js_error + js_value" where
  "foodItems_init has_window localStorage t1 t2 =
     (if has_window then
        (case localStorage ''foodItems'' of
           None \<Rightarrow> Inr (catalog_value (seed_catalog t1 t2))
         | Some savedItems \<Rightarrow>
             if savedItems = [] then Inr (catalog_value (seed_catalog t1 t2))
             else JSON_parse savedItems)
      else Inr (JArr []))"

text \<open>The effect that runs at mount and after every change of \<^verbatim>\<open>foodItems\<close>.\<close>

definition persist_foodItems :: "char FoodItem list \<Rightarrow> storage \<Rightarrow> storage" where
  "persist_foodItems items localStorage =
     localStorage(''foodItems'' \<mapsto> JSON_stringify (catalog_value items))"


section \<open>The listing as the specification words it\<close>

text \<open>
  The search term, case ignored, is a substring of a text: some stretch of the text is
  equal to the term once both are in lower case. \<open>lower\<close> is the lower-casing function.
\<close>

definition occurs_ignoring_case :: "('u list \<Rightarrow> 'u list) \<Rightarrow> 'u list \<Rightarrow> 'u list \<Rightarrow> bool" where
  "occurs_ignoring_case lower term text \<longleftrightarrow>
     (\<exists>pre mid post. text = pre @ mid @ post \<and> lower mid = lower term)"

definition list_spec ::
  "('u list \<Rightarrow> 'u list) \<Rightarrow> 'u FoodItem list \<Rightarrow> 'u list \<Rightarrow> CategoryFilter \<Rightarrow> 'u FoodItem list" where
  "list_spec lower items term c =
     filter (\<lambda>item.
        (c = cat_all \<or> c = cat (category item)) \<and>
        (occurs_ignoring_case lower term (title item) \<or>
         occurs_ignoring_case lower term (NewFoodItem.description item)))
       items"

text \<open>
  The other reading: the term in lower case is a substring of the text in lower case.
\<close>

definition is_substring :: "'a list \<Rightarrow> 'a list \<Rightarrow> bool" where
  "is_substring t s \<longleftrightarrow> (\<exists>pre post. s = pre @ t @ post)"

definition list_lowered ::
  "('u list \<Rightarrow> 'u list) \<Rightarrow> 'u FoodItem list \<Rightarrow> 'u list \<Rightarrow> CategoryFilter \<Rightarrow> 'u FoodItem list" where
  "list_lowered lower items term c =
     filter (\<lambda>item.
        (c = cat_all \<or> c = cat (category item)) \<and>
        (is_substring (lower term) (lower (title item)) \<or>
         is_substring (lower term) (lower (NewFoodItem.description item))))
       items"


section \<open>Lemmas on strings\<close>

lemma starts_with_iff: "starts_with s t \<longleftrightarrow> (\<exists>post. s = t @ post)"
  by (induction s t rule: starts_with.induct) auto

lemma includes_str_iff: "includes_str s t \<longleftrightarrow> (\<exists>pre post. s = pre @ t @ post)"
proof (induction s)
  case Nil
  show ?case by (simp add: starts_with_iff)
next
  case (Cons x xs)
  show ?case
  proof
    assume "includes_str (x # xs) t"
    then consider "starts_with (x # xs) t" | "includes_str xs t" by auto
    then show "\<exists>pre post. x # xs = pre @ t @ post"
    proof cases
      case 1
      then obtain post where "x # xs = t @ post" by (auto simp: starts_with_iff)
      then have "x # xs = [] @ t @ post" by simp
      then show ?thesis by blast
    next
      case 2
      then obtain pre post where "xs = pre @ t @ post" using Cons.IH by blast
      then have "x # xs = (x # pre) @ t @ post" by simp
      then show ?thesis by blast
    qed
  next
    assume "\<exists>pre post. x # xs = pre @ t @ post"
    then obtain pre post where e: "x # xs = pre @ t @ post" by blast
    show "includes_str (x # xs) t"
    proof (cases pre)
      case Nil
      with e have "starts_with (x # xs) t" by (auto simp: starts_with_iff)
      then show ?thesis by simp
    next
      case (Cons p ps)
      with e have "xs = ps @ t @ post" by simp
      then have "includes_str xs t" using Cons.IH by blast
      then show ?thesis by simp
    qed
  qed
qed

lemma includes_str_empty: "includes_str s []"
  by (cases s) auto

lemma toLowerCase_Nil: "toLowerCase [] = []"
  by (simp add: toLowerCase_def)

lemma seed_search_bread:
  "\<not> includes_str (toLowerCase ''Fresh Apples'') (toLowerCase ''bread'')"
  "\<not> includes_str
      (toLowerCase ''Box of organic apples, slightly bruised but perfectly good'')
      (toLowerCase ''bread'')"
  "includes_str (toLowerCase ''Day-old Bread'') (toLowerCase ''bread'')"
  by code_simp+

lemma includes_map_iff:
  "includes_str (map f text) (map f term) \<longleftrightarrow> occurs_ignoring_case (map f) term text"
proof
  assume "includes_str (map f text) (map f term)"
  then obtain pre post where "map f text = pre @ map f term @ post"
    by (auto simp: includes_str_iff)
  then obtain a b where ab: "text = a @ b" "map f term @ post = map f b"
    unfolding map_eq_append_conv by blast
  from ab(2) obtain m c where "b = m @ c" "map f m = map f term"
    unfolding append_eq_map_conv by metis
  with ab have "text = a @ m @ c \<and> map f m = map f term"
    by simp
  then show "occurs_ignoring_case (map f) term text"
    unfolding occurs_ignoring_case_def by blast
next
  assume "occurs_ignoring_case (map f) term text"
  then obtain pre mid post where
    "text = pre @ mid @ post" "map f mid = map f term"
    unfolding occurs_ignoring_case_def by blast
  then have "map f text = map f pre @ map f term @ map f post"
    by simp
  then show "includes_str (map f text) (map f term)"
    unfolding includes_str_iff by blast
qed

lemma toLowerCase_is_map: "toLowerCase = map lower_unit"
  by (rule ext) (simp add: toLowerCase_def)

lemma occurs_in_singleton:
  "occurs_ignoring_case lower term [u] \<longleftrightarrow> lower [] = lower term \<or> lower [u] = lower term"
proof
  assume "occurs_ignoring_case lower term [u]"
  then obtain pre mid post where d: "[u] = pre @ mid @ post" and l: "lower mid = lower term"
    unfolding occurs_ignoring_case_def by blast
  from d have "mid = [] \<or> mid = [u]"
    by (cases pre; cases mid) auto
  with l show "lower [] = lower term \<or> lower [u] = lower term" by auto
next
  assume "lower [] = lower term \<or> lower [u] = lower term"
  then show "occurs_ignoring_case lower term [u]"
  proof
    assume "lower [] = lower term"
    moreover have "[u] = [] @ [] @ [u]" by simp
    ultimately show ?thesis unfolding occurs_ignoring_case_def by blast
  next
    assume "lower [u] = lower term"
    moreover have "[u] = [] @ [u] @ []" by simp
    ultimately show ?thesis unfolding occurs_ignoring_case_def by blast
  qed
qed

lemma occurs_units_includes:
  assumes "occurs_ignoring_case toLowerCase_units term text"
  shows "includes_str (toLowerCase_units text) (toLowerCase_units term)"
proof -
  from assms obtain pre mid post where
    "text = pre @ mid @ post" "toLowerCase_units mid = toLowerCase_units term"
    unfolding occurs_ignoring_case_def by blast
  then have "toLowerCase_units text =
      toLowerCase_units pre @ toLowerCase_units term @ toLowerCase_units post"
    by (simp add: toLowerCase_units_def)
  then show ?thesis unfolding includes_str_iff by blast
qed

lemma dotted_code_side:
  "includes_str (toLowerCase_units [U0130]) (toLowerCase_units (units ''i''))"
  "\<not> includes_str (toLowerCase_units (units ''Flatbread'')) (toLowerCase_units (units ''i''))"
  "toLowerCase_units [] \<noteq> toLowerCase_units (units ''i'')"
  "toLowerCase_units [U0130] \<noteq> toLowerCase_units (units ''i'')"
  by code_simp+

lemma dotted_spec_side:
  "\<not> occurs_ignoring_case toLowerCase_units (units ''i'') [U0130]"
  "\<not> occurs_ignoring_case toLowerCase_units (units ''i'') (units ''Flatbread'')"
  using dotted_code_side occurs_units_includes [of "units ''i''" "units ''Flatbread''"]
  by (auto simp: occurs_in_singleton)


section \<open>Lemmas on the session\<close>

lemma login_profile_name: "name (login_profile r) \<noteq> []"
  by (simp add: login_profile_def)

lemma step_user:
  "currentUser (step s e) = None \<or> (\<exists>r. currentUser (step s e) = Some (login_profile r)) \<or>
   currentUser (step s e) = currentUser s"
  by (cases e) (auto simp: handleLogin_def handleLogout_def handleInputChange_def
      handleCategoryChange_def handleSubmitFoodItem_def)

lemma run_snoc: "run items (evs @ [e]) = step (run items evs) e"
  by (simp add: run_def)

lemma run_user:
  "currentUser (run items evs) = None \<or>
   (\<exists>r. currentUser (run items evs) = Some (login_profile r))"
proof (induction evs rule: rev_induct)
  case Nil
  show ?case by (simp add: run_def initial_state_def)
next
  case (snoc e evs)
  with step_user [of "run items evs" e] show ?case
    by (auto simp: run_snoc)
qed

lemma poster_name_run:
  "poster_name (currentUser (run items evs)) =
     (case currentUser (run items evs) of None \<Rightarrow> ''Anonymous'' | Some u \<Rightarrow> name u)"
  using run_user [of items evs] by (auto simp: poster_name_def login_profile_name)

lemma donor_session_state:
  "run items donor_session =
     \<lparr>currentUser = Some (login_profile donor), searchTerm = '''', selectedCategory = cat_all,
      activeTab = ''post'',
      newFoodItem = \<lparr>title = ''Soup'', description = ''Two pots of lentil soup'',
        category = meals, quantity = ''8 l'', expiryDate = ''2024-01-05'',
        location = ''Canteen''\<rparr>,
      foodItems = items\<rparr>"
  by (simp add: run_def donor_session_def initial_state_def initial_form_def handleLogin_def
      handleInputChange_def handleCategoryChange_def)


section \<open>Lemmas on JSON\<close>

lemma cons_token_prepend: "cons_token t r = prepend [t] r"
  by (simp add: cons_token_def prepend_def split: sum.splits)

lemma prepend_append: "prepend (a @ b) r = prepend a (prepend b r)"
  by (simp add: prepend_def split: sum.splits)

lemma prepend_Cons: "prepend (t # ts) r = prepend [t] (prepend ts r)"
  by (simp add: prepend_def split: sum.splits)

lemma prepend_Nil: "prepend [] r = r"
  by (simp add: prepend_def split: sum.splits)

lemma hex_value_hex_digit: "n < 16 \<Longrightarrow> hex_value (hex_digit n) = Some n"
  by (simp add: hex_value_def hex_digit_def Let_def)

lemma hex_value_zero: "hex_value (CHR ''0'') = Some 0"
  by (simp add: hex_value_def)

lemma hex4_low:
  assumes "n < 256"
  shows "hex4 [CHR ''0'', CHR ''0'', hex_digit (n div 16), hex_digit (n mod 16)] = Some n"
proof -
  have "n div 16 < 16" using assms by simp
  then show ?thesis
    by (simp add: hex_value_hex_digit hex_value_zero)
qed

lemma string_body_quote_unit:
  "string_body (quote_unit c @ cs) = cons_result c (string_body cs)"
proof -
  consider (named) "c \<in> {CHR 0x08, CHR 0x09, CHR 0x0A, CHR 0x0C, CHR 0x0D, CHR ''\"'', CHR 0x5C}"
    | (low) "c \<notin> {CHR 0x08, CHR 0x09, CHR 0x0A, CHR 0x0C, CHR 0x0D, CHR ''\"'', CHR 0x5C}"
        "(of_char c :: nat) < 32"
    | (plain) "c \<notin> {CHR 0x08, CHR 0x09, CHR 0x0A, CHR 0x0C, CHR 0x0D, CHR ''\"'', CHR 0x5C}"
        "\<not> (of_char c :: nat) < 32"
    by blast
  then show ?thesis
  proof cases
    case named
    then show ?thesis by (auto simp: quote_unit_def unescape_def)
  next
    case low
    then have "hex4 [CHR ''0'', CHR ''0'', hex_digit ((of_char c :: nat) div 16),
        hex_digit ((of_char c :: nat) mod 16)] = Some (of_char c)"
      by (intro hex4_low) simp
    with low show ?thesis by (simp add: quote_unit_def)
  next
    case plain
    then show ?thesis by (simp add: quote_unit_def)
  qed
qed

lemma string_body_quoted:
  "string_body (concat (map quote_unit s) @ CHR ''\"'' # rest) = Inr (s, rest)"
  by (induction s) (simp_all add: string_body_quote_unit cons_result_def)

lemma lex_quote: "lex (quote s @ rest) = prepend [TScalar (JStr s)] (lex rest)"
  by (simp add: quote_def lex.simps is_ws_def string_body_quoted cons_token_prepend)

lemma lex_punct:
  "lex (CHR ''['' # cs) = prepend [TLBrack] (lex cs)"
  "lex (CHR '']'' # cs) = prepend [TRBrack] (lex cs)"
  "lex (CHR ''{'' # cs) = prepend [TLBrace] (lex cs)"
  "lex (CHR ''}'' # cs) = prepend [TRBrace] (lex cs)"
  "lex (CHR '','' # cs) = prepend [TComma] (lex cs)"
  "lex (CHR '':'' # cs) = prepend [TColon] (lex cs)"
  by (simp_all add: lex.simps is_ws_def cons_token_prepend)

lemma lex_literal:
  "lex (''null'' @ cs) = prepend [TScalar JNull] (lex cs)"
  "lex (''true'' @ cs) = prepend [TScalar (JBool True)] (lex cs)"
  "lex (''false'' @ cs) = prepend [TScalar (JBool False)] (lex cs)"
  by (simp_all add: lex.simps is_ws_def cons_token_prepend)


lemma lex_separated_tail:
  assumes "\<And>x rest. x \<in> set xs \<Longrightarrow> lex (f x @ rest) = prepend (g x) (lex rest)"
  shows "lex (concat (map (\<lambda>y. CHR '','' # y) (map f xs)) @ rest) =
         prepend (concat (map (\<lambda>y. TComma # y) (map g xs))) (lex rest)"
  using assms
proof (induction xs)
  case Nil
  show ?case by (simp add: prepend_Nil)
next
  case (Cons x xs)
  have "lex (concat (map (\<lambda>y. CHR '','' # y) (map f (x # xs))) @ rest) =
        prepend [TComma] (lex (f x @ concat (map (\<lambda>y. CHR '','' # y) (map f xs)) @ rest))"
    by (simp add: lex_punct)
  also have "\<dots> = prepend [TComma] (prepend (g x)
        (lex (concat (map (\<lambda>y. CHR '','' # y) (map f xs)) @ rest)))"
    using Cons.prems [of x] by simp
  also have "\<dots> = prepend [TComma] (prepend (g x)
        (prepend (concat (map (\<lambda>y. TComma # y) (map g xs))) (lex rest)))"
    using Cons.IH Cons.prems by simp
  also have "\<dots> = prepend (concat (map (\<lambda>y. TComma # y) (map g (x # xs)))) (lex rest)"
    by (simp add: prepend_append [symmetric])
  finally show ?case .
qed

lemma lex_separated:
  assumes "\<And>x rest. x \<in> set xs \<Longrightarrow> lex (f x @ rest) = prepend (g x) (lex rest)"
  shows "lex (comma_separated (map f xs) @ rest) = prepend (separated (map g xs)) (lex rest)"
proof (cases xs)
  case Nil
  then show ?thesis by (simp add: prepend_Nil)
next
  case (Cons x ys)
  have tail: "lex (concat (map (\<lambda>y. CHR '','' # y) (map f ys)) @ r) =
        prepend (concat (map (\<lambda>y. TComma # y) (map g ys))) (lex r)" for r
    using assms Cons by (intro lex_separated_tail) simp
  have "lex (comma_separated (map f xs) @ rest) =
        lex (f x @ concat (map (\<lambda>y. CHR '','' # y) (map f ys)) @ rest)"
    using Cons by simp
  also have "\<dots> = prepend (g x) (lex (concat (map (\<lambda>y. CHR '','' # y) (map f ys)) @ rest))"
    using assms [of x] Cons by simp
  also have "\<dots> = prepend (g x)
        (prepend (concat (map (\<lambda>y. TComma # y) (map g ys))) (lex rest))"
    by (simp only: tail)
  also have "\<dots> = prepend (separated (map g xs)) (lex rest)"
    using Cons by (simp add: prepend_append [symmetric])
  finally show ?thesis .
qed

lemma lex_stringify:
  "storable v \<Longrightarrow> lex (JSON_stringify v @ rest) = prepend (tokens_of v) (lex rest)"
proof (induction v arbitrary: rest)
  case JNull
  show ?case using lex_literal(1) [of rest] by simp
next
  case (JBool b)
  show ?case using lex_literal(2) [of rest] lex_literal(3) [of rest] by (cases b) simp_all
next
  case (JNum l)
  then show ?case by simp
next
  case (JStr s)
  show ?case by (simp add: lex_quote)
next
  case (JDate t)
  show ?case by (simp add: lex_quote)
next
  case (JArr vs)
  have elems: "lex (JSON_stringify x @ r) = prepend (tokens_of x) (lex r)"
    if "x \<in> set vs" for x r
    using that JArr by (simp add: list_all_iff)
  have "lex (JSON_stringify (JArr vs) @ rest) =
        prepend [TLBrack] (lex (comma_separated (map JSON_stringify vs) @ CHR '']'' # rest))"
    by (simp add: lex_punct)
  also have "\<dots> = prepend [TLBrack] (prepend (separated (map tokens_of vs))
        (lex (CHR '']'' # rest)))"
    using lex_separated [of vs JSON_stringify tokens_of "CHR '']'' # rest"] elems by simp
  also have "\<dots> = prepend (tokens_of (JArr vs)) (lex rest)"
    by (simp add: lex_punct prepend_append [symmetric])
  finally show ?case .
next
  case (JObj ms)
  let ?f = "\<lambda>m. quote (fst m) @ '':'' @ JSON_stringify (snd m)"
  let ?g = "\<lambda>m. TScalar (JStr (fst m)) # TColon # tokens_of (snd m)"
  have member: "lex (?f m @ r) = prepend (?g m) (lex r)" if "m \<in> set ms" for m r
  proof -
    have "storable (snd m)" using that JObj.prems by (simp add: list_all_iff)
    moreover have "snd m \<in> Basic_BNFs.snds m" by (cases m) simp
    ultimately have "lex (JSON_stringify (snd m) @ r) = prepend (tokens_of (snd m)) (lex r)"
      using JObj.IH that by blast
    then show ?thesis
      by (simp add: lex_quote lex_punct prepend_append [symmetric])
  qed
  have "lex (JSON_stringify (JObj ms) @ rest) =
        prepend [TLBrace] (lex (comma_separated (map ?f ms) @ CHR ''}'' # rest))"
    by (simp add: lex_punct)
  also have "\<dots> = prepend [TLBrace] (prepend (separated (map ?g ms)) (lex (CHR ''}'' # rest)))"
    using lex_separated [of ms ?f ?g "CHR ''}'' # rest"] member by simp
  also have "\<dots> = prepend (tokens_of (JObj ms)) (lex rest)"
    by (simp add: lex_punct prepend_append [symmetric])
  finally show ?case .
qed


lemma put_fresh: "k \<notin> fst ` set ms \<Longrightarrow> put ms k v = ms @ [(k, v)]"
  by (induction ms) auto

lemma feed_elements:
  assumes "\<And>x st ts. x \<in> set vs \<Longrightarrow>
             foldl feed (Parsing Value st) (tokens_of x @ ts) =
             foldl feed (deliver (reloaded x) st) ts"
  shows "foldl feed (Parsing CommaOrEnd (ArrF acc # st))
           (concat (map (\<lambda>y. TComma # y) (map tokens_of vs)) @ TRBrack # ts) =
         foldl feed (deliver (JArr (acc @ map reloaded vs)) st) ts"
  using assms
proof (induction vs arbitrary: acc)
  case Nil
  show ?case by simp
next
  case (Cons v vs)
  have "foldl feed (Parsing CommaOrEnd (ArrF acc # st))
          (concat (map (\<lambda>y. TComma # y) (map tokens_of (v # vs))) @ TRBrack # ts) =
        foldl feed (Parsing Value (ArrF acc # st))
          (tokens_of v @ concat (map (\<lambda>y. TComma # y) (map tokens_of vs)) @ TRBrack # ts)"
    by simp
  also have "\<dots> = foldl feed (deliver (reloaded v) (ArrF acc # st))
          (concat (map (\<lambda>y. TComma # y) (map tokens_of vs)) @ TRBrack # ts)"
    by (rule Cons.prems) simp
  also have "\<dots> = foldl feed (Parsing CommaOrEnd (ArrF (acc @ [reloaded v]) # st))
          (concat (map (\<lambda>y. TComma # y) (map tokens_of vs)) @ TRBrack # ts)"
    by simp
  also have "\<dots> = foldl feed (deliver (JArr ((acc @ [reloaded v]) @ map reloaded vs)) st) ts"
    by (rule Cons.IH) (simp del: foldl_append add: Cons.prems)
  finally show ?case by simp
qed

lemma feed_member:
  assumes "\<And>st ts. foldl feed (Parsing Value st) (tokens_of (snd m) @ ts) =
             foldl feed (deliver (reloaded (snd m)) st) ts"
    and "e = Key \<or> e = KeyOrEnd" and "fst m \<notin> fst ` set acc"
  shows "foldl feed (Parsing e (ObjF acc # st))
           (TScalar (JStr (fst m)) # TColon # tokens_of (snd m) @ ts) =
         foldl feed (Parsing CommaOrEnd (ObjF (acc @ [(fst m, reloaded (snd m))]) # st)) ts"
proof -
  have "foldl feed (Parsing e (ObjF acc # st))
          (TScalar (JStr (fst m)) # TColon # tokens_of (snd m) @ ts) =
        foldl feed (Parsing Value (KeyF acc (fst m) # st)) (tokens_of (snd m) @ ts)"
    using assms(2) by auto
  also have "\<dots> = foldl feed (deliver (reloaded (snd m)) (KeyF acc (fst m) # st)) ts"
    by (rule assms(1))
  finally show ?thesis using assms(3) by (simp add: put_fresh)
qed

lemma feed_members:
  assumes "\<And>m st ts. m \<in> set ms \<Longrightarrow>
             foldl feed (Parsing Value st) (tokens_of (snd m) @ ts) =
             foldl feed (deliver (reloaded (snd m)) st) ts"
    and "distinct (map fst acc @ map fst ms)"
  shows "foldl feed (Parsing CommaOrEnd (ObjF acc # st))
           (concat (map (\<lambda>y. TComma # y)
              (map (\<lambda>m. TScalar (JStr (fst m)) # TColon # tokens_of (snd m)) ms)) @
            TRBrace # ts) =
         foldl feed (deliver (JObj (acc @ map (\<lambda>m. (fst m, reloaded (snd m))) ms)) st) ts"
  using assms
proof (induction ms arbitrary: acc)
  case Nil
  show ?case by simp
next
  case (Cons m ms)
  let ?rest = "concat (map (\<lambda>y. TComma # y)
      (map (\<lambda>m. TScalar (JStr (fst m)) # TColon # tokens_of (snd m)) ms)) @ TRBrace # ts"
  have fresh: "fst m \<notin> fst ` set acc" using Cons.prems(2) by auto
  have "foldl feed (Parsing CommaOrEnd (ObjF acc # st))
          (concat (map (\<lambda>y. TComma # y)
             (map (\<lambda>m. TScalar (JStr (fst m)) # TColon # tokens_of (snd m)) (m # ms))) @
           TRBrace # ts) =
        foldl feed (Parsing Key (ObjF acc # st))
          (TScalar (JStr (fst m)) # TColon # tokens_of (snd m) @ ?rest)"
    by simp
  also have "\<dots> = foldl feed (Parsing CommaOrEnd (ObjF (acc @ [(fst m, reloaded (snd m))]) # st))
          ?rest"
    by (rule feed_member) (simp_all del: foldl_append add: Cons.prems(1) fresh)
  also have "\<dots> = foldl feed (deliver (JObj ((acc @ [(fst m, reloaded (snd m))]) @
          map (\<lambda>m. (fst m, reloaded (snd m))) ms)) st) ts"
    using Cons.prems by (intro Cons.IH) auto
  finally show ?case by simp
qed

lemma feed_tokens_of:
  "storable v \<Longrightarrow> e = Value \<or> e = ValueOrEnd \<Longrightarrow>
   foldl feed (Parsing e st) (tokens_of v @ ts) = foldl feed (deliver (reloaded v) st) ts"
proof (induction v arbitrary: e st ts)
  case (JNum l)
  then show ?case by simp
next
  case (JArr vs)
  have elems: "foldl feed (Parsing Value st') (tokens_of x @ ts') =
      foldl feed (deliver (reloaded x) st') ts'" if "x \<in> set vs" for x st' ts'
    using that JArr by (simp add: list_all_iff)
  show ?case
  proof (cases vs)
    case Nil
    with JArr.prems(2) show ?thesis by auto
  next
    case (Cons x xs)
    have "foldl feed (Parsing e st) (tokens_of (JArr vs) @ ts) =
          foldl feed (Parsing ValueOrEnd (ArrF [] # st))
            (tokens_of x @ concat (map (\<lambda>y. TComma # y) (map tokens_of xs)) @ TRBrack # ts)"
      using Cons JArr.prems(2) by auto
    also have "\<dots> = foldl feed (deliver (reloaded x) (ArrF [] # st))
            (concat (map (\<lambda>y. TComma # y) (map tokens_of xs)) @ TRBrack # ts)"
      using JArr.IH [of x ValueOrEnd] JArr.prems(1) Cons by (simp add: list_all_iff)
    also have "\<dots> = foldl feed (Parsing CommaOrEnd (ArrF [reloaded x] # st))
            (concat (map (\<lambda>y. TComma # y) (map tokens_of xs)) @ TRBrack # ts)"
      by simp
    also have "\<dots> = foldl feed (deliver (JArr ([reloaded x] @ map reloaded xs)) st) ts"
      using Cons by (intro feed_elements elems) simp
    finally show ?thesis using Cons by simp
  qed
next
  case (JObj ms)
  have members: "foldl feed (Parsing Value st') (tokens_of (snd m) @ ts') =
      foldl feed (deliver (reloaded (snd m)) st') ts'" if "m \<in> set ms" for m st' ts'
  proof -
    have "storable (snd m)" using that JObj.prems by (simp add: list_all_iff)
    moreover have "snd m \<in> Basic_BNFs.snds m" by (cases m) simp
    ultimately show ?thesis using JObj.IH that by blast
  qed
  show ?case
  proof (cases ms)
    case Nil
    with JObj.prems(2) show ?thesis by auto
  next
    case (Cons m ms')
    let ?rest = "concat (map (\<lambda>y. TComma # y)
        (map (\<lambda>m. TScalar (JStr (fst m)) # TColon # tokens_of (snd m)) ms')) @ TRBrace # ts"
    have "foldl feed (Parsing e st) (tokens_of (JObj ms) @ ts) =
          foldl feed (Parsing KeyOrEnd (ObjF [] # st))
            (TScalar (JStr (fst m)) # TColon # tokens_of (snd m) @ ?rest)"
      using Cons JObj.prems(2) by auto
    also have "\<dots> = foldl feed
            (Parsing CommaOrEnd (ObjF ([] @ [(fst m, reloaded (snd m))]) # st)) ?rest"
      using Cons by (intro feed_member members) simp_all
    also have "\<dots> = foldl feed (deliver (JObj (([] @ [(fst m, reloaded (snd m))]) @
          map (\<lambda>m. (fst m, reloaded (snd m))) ms')) st) ts"
      using Cons JObj.prems(1) by (intro feed_members members) auto
    finally show ?thesis using Cons by simp
  qed
qed auto

lemma JSON_roundtrip: "storable v \<Longrightarrow> JSON_parse (JSON_stringify v) = Inr (reloaded v)"
proof -
  assume s: "storable v"
  have "lex (JSON_stringify v @ []) = prepend (tokens_of v) (lex [])"
    using s by (rule lex_stringify)
  then have l: "lex (JSON_stringify v) = Inr (tokens_of v)"
    by (simp add: prepend_def lex.simps)
  have "foldl feed (Parsing Value []) (tokens_of v @ []) = foldl feed (deliver (reloaded v) []) []"
    using s by (intro feed_tokens_of) simp_all
  then have "foldl feed (Parsing Value []) (tokens_of v) = Done (reloaded v)"
    by simp
  with l show ?thesis by (simp add: JSON_parse_def)
qed


lemma storable_item: "storable (item_object JDate item)"
  by (simp add: item_object_def)

lemma reloaded_item:
  "reloaded (item_object JDate item) = item_object (\<lambda>t. JStr (toISOString t)) item"
  by (simp add: item_object_def)

lemma storable_catalog: "storable (catalog_value items)"
  by (simp add: catalog_value_def list_all_iff storable_item)

lemma reloaded_catalog:
  "reloaded (catalog_value items) = JArr (map (item_object (\<lambda>t. JStr (toISOString t))) items)"
  by (simp add: catalog_value_def reloaded_item)

lemma stringify_catalog_not_empty: "JSON_stringify (catalog_value items) \<noteq> []"
  by (simp add: catalog_value_def)


section \<open>Lemmas on identifiers\<close>

lemma digit_char_inj: "a < 10 \<Longrightarrow> b < 10 \<Longrightarrow> digit_char a = digit_char b \<Longrightarrow> a = b"
  by (simp add: digit_char_def)

lemma digit_char_not_minus:
  assumes "d < 10"
  shows "digit_char d \<noteq> CHR ''-''"
proof
  assume "digit_char d = CHR ''-''"
  then have "(of_char (digit_char d) :: nat) = of_char (CHR ''-'')" by simp
  with assms show False by (simp add: digit_char_def)
qed

lemma decimal_not_Nil: "decimal n \<noteq> []"
  by (subst decimal.simps) simp

lemma decimal_inj: "decimal n = decimal m \<Longrightarrow> n = m"
proof (induction n arbitrary: m rule: decimal.induct)
  case (1 n)
  show ?case
  proof (cases "n < 10")
    case True
    then have n: "decimal n = [digit_char n]" by (subst decimal.simps) simp
    show ?thesis
    proof (cases "m < 10")
      case True
      then have "decimal m = [digit_char m]" by (subst decimal.simps) simp
      with n "1.prems" \<open>n < 10\<close> True show ?thesis by (auto dest: digit_char_inj)
    next
      case False
      then have "decimal m = decimal (m div 10) @ [digit_char (m mod 10)]"
        by (subst decimal.simps) simp
      with n "1.prems" decimal_not_Nil [of "m div 10"] show ?thesis by simp
    qed
  next
    case False
    then have n: "decimal n = decimal (n div 10) @ [digit_char (n mod 10)]"
      by (subst decimal.simps) simp
    show ?thesis
    proof (cases "m < 10")
      case True
      then have "decimal m = [digit_char m]" by (subst decimal.simps) simp
      with n "1.prems" decimal_not_Nil [of "n div 10"] show ?thesis by simp
    next
      case m: False
      then have "decimal m = decimal (m div 10) @ [digit_char (m mod 10)]"
        by (subst decimal.simps) simp
      with n "1.prems" have "decimal (n div 10) = decimal (m div 10)"
        and "digit_char (n mod 10) = digit_char (m mod 10)" by simp_all
      then have "n div 10 = m div 10" and "n mod 10 = m mod 10"
        using "1.IH" [OF False, of "m div 10"] digit_char_inj [of "n mod 10" "m mod 10"]
        by simp_all
      then show ?thesis by (metis div_mult_mod_eq)
    qed
  qed
qed

lemma decimal_no_minus: "CHR ''-'' \<notin> set (decimal n)"
proof (induction n rule: decimal.induct)
  case (1 n)
  show ?case
  proof (cases "n < 10")
    case True
    then show ?thesis by (subst decimal.simps) (simp add: digit_char_not_minus [symmetric])
  next
    case False
    with 1 show ?thesis
      by (subst decimal.simps) (simp add: digit_char_not_minus [symmetric])
  qed
qed

lemma Number_toString_inj: "Number_toString i = Number_toString j \<Longrightarrow> i = j"
proof -
  assume eq: "Number_toString i = Number_toString j"
  have neg_pos: False if "a < 0" "\<not> b < 0" "Number_toString a = Number_toString b" for a b
  proof -
    from that have "CHR ''-'' # decimal (nat (- a)) = decimal (nat b)"
      by (simp add: Number_toString_def)
    then have "CHR ''-'' \<in> set (decimal (nat b))" by (metis list.set_intros(1))
    then show False by (simp add: decimal_no_minus)
  qed
  show ?thesis
  proof (cases "i < 0")
    case True
    show ?thesis
    proof (cases "j < 0")
      case j: True
      with True eq have "nat (- i) = nat (- j)"
        by (auto simp: Number_toString_def dest: decimal_inj)
      with True j show ?thesis by simp
    next
      case False
      with neg_pos [of i j] True eq show ?thesis by blast
    qed
  next
    case False
    show ?thesis
    proof (cases "j < 0")
      case True
      with neg_pos [of j i] False eq show ?thesis by metis
    next
      case j: False
      with False eq have "nat i = nat j" by (auto simp: Number_toString_def dest: decimal_inj)
      with False j show ?thesis by simp
    qed
  qed
qed

lemma ids_step:
  "map id_item (foodItems (step s e)) =
     map id_item (foodItems s) @ map Number_toString (submit_times [e])"
  by (cases e) (simp_all add: handleLogin_def handleLogout_def handleInputChange_def
      handleCategoryChange_def handleSubmitFoodItem_def newItem_def NewFoodItem.defs FoodItem.defs)

lemma submit_times_append: "submit_times (a @ b) = submit_times a @ submit_times b"
  by (induction a rule: submit_times.induct) simp_all

lemma ids_run:
  "map id_item (foodItems (run items evs)) =
     map id_item items @ map Number_toString (submit_times evs)"
proof (induction evs rule: rev_induct)
  case Nil
  show ?case by (simp add: run_def initial_state_def)
next
  case (snoc e evs)
  then show ?case by (simp add: run_snoc ids_step submit_times_append)
qed

section \<open>Posting an item\<close>

text \<open>
  Claim C2. In every state the component can reach, when every required input of the form
  is non-empty, \<^verbatim>\<open>handleSubmitFoodItem\<close> appends exactly one item at the end of the catalog,
  whose length grows by one; the item carries the fields of the form, the name of the
  active user as \<^verbatim>\<open>postedBy\<close> (\<^verbatim>\<open>Anonymous\<close> when nobody is logged in), the decimal clock
  reading as \<^verbatim>\<open>id\<close> and the creation date as \<^verbatim>\<open>postedAt\<close>; the form is back at its
  defaults and the active tab is the listing.
\<close>

theorem submit_appends_stamped_item:
  assumes "s = run items evs" and "required_filled (newFoodItem s)"
  shows "foodItems (handleSubmitFoodItem now at s) = foodItems s @ [newItem now at s] \<and>
         length (foodItems (handleSubmitFoodItem now at s)) = length (foodItems s) + 1 \<and>
         postedBy (newItem now at s) =
           (case currentUser s of None \<Rightarrow> ''Anonymous'' | Some u \<Rightarrow> name u) \<and>
         id_item (newItem now at s) = Number_toString now \<and>
         postedAt (newItem now at s) = at \<and>
         NewFoodItem.truncate (newItem now at s) = newFoodItem s \<and>
         newFoodItem (handleSubmitFoodItem now at s) = initial_form \<and>
         activeTab (handleSubmitFoodItem now at s) = ''listings''"
  using assms poster_name_run [of items evs]
  by (simp add: handleSubmitFoodItem_def newItem_def initial_form_def NewFoodItem.defs
      FoodItem.defs)

theorem submit_appends_stamped_item_witness:
  "required_filled (newFoodItem (run (seed_catalog 0 0) donor_session)) \<and>
   foodItems (handleSubmitFoodItem 7 8 (run (seed_catalog 0 0) donor_session)) =
     seed_catalog 0 0 @
     [\<lparr>title = ''Soup'', description = ''Two pots of lentil soup'', category = meals,
       quantity = ''8 l'', expiryDate = ''2024-01-05'', location = ''Canteen'',
       id_item = Number_toString 7, postedBy = ''Food Donor'', postedAt = 8\<rparr>] \<and>
   newFoodItem (handleSubmitFoodItem 7 8 (run (seed_catalog 0 0) donor_session)) = initial_form \<and>
   activeTab (handleSubmitFoodItem 7 8 (run (seed_catalog 0 0) donor_session)) = ''listings''"
proof -
  have filled: "required_filled (newFoodItem (run (seed_catalog 0 0) donor_session))"
    by (simp add: donor_session_state required_filled_def)
  show ?thesis
    using submit_appends_stamped_item [OF refl filled, of 7 8] filled
    by (simp add: donor_session_state newItem_def poster_name_def login_profile_def
        NewFoodItem.defs FoodItem.defs)
qed

text \<open>
  Claim C10. \<^verbatim>\<open>handleSubmitFoodItem\<close> validates nothing: in every state it appends the
  item built from the form as it stands, and from a form whose text fields are all empty
  it appends an item whose text fields are all empty.
\<close>

theorem submit_never_validates:
  "foodItems (handleSubmitFoodItem now at s) = foodItems s @ [newItem now at s] \<and>
   NewFoodItem.truncate (newItem now at s) = newFoodItem s \<and>
   foodItems (handleSubmitFoodItem now at (s\<lparr>newFoodItem := initial_form\<rparr>)) =
     foodItems s @
     [\<lparr>title = '''', description = '''', category = fruits, quantity = '''',
       expiryDate = '''', location = '''', id_item = Number_toString now,
       postedBy = poster_name (currentUser s), postedAt = at\<rparr>]"
  by (simp add: handleSubmitFoodItem_def newItem_def initial_form_def NewFoodItem.defs
      FoodItem.defs)


section \<open>The listing\<close>

text \<open>
  Claim C3, as the specification states it, fails on text wider than the code units below
  256. For the item titled with the one letter U+0130 and the search term i the code lists
  the item, because the title in lower case is i followed by U+0307; no stretch of the
  title or of the description is equal to the term with case ignored.
\<close>

theorem dotted_capital_listed:
  "filteredItems_on toLowerCase_units dotted_state = [dotted_item] \<and>
   list_spec toLowerCase_units (foodItems dotted_state) (searchTerm dotted_state)
     (selectedCategory dotted_state) = []"
  by (simp add: filteredItems_on_def list_spec_def dotted_state_def dotted_item_def
      dotted_code_side dotted_spec_side)

text \<open>
  Claim C3, amended. For every catalog, search term and category selection, and whatever
  the lower-casing function of the platform is, the rendered list is the catalog, in
  catalog order, restricted to the items for which both hold: the selection is \<^verbatim>\<open>all\<close> or
  equals the category of the item, and the search term in lower case is a substring of
  the title in lower case or of the description in lower case. \<^verbatim>\<open>filteredItems\<close> is that
  list for the lower-casing of the code units below 256. Where the lower-casing maps code
  unit to code unit, as it does there, this is the list of the items in which the search
  term, case ignored, is a substring of the title or of the description.
\<close>

theorem filteredItems_is_lowered_listing:
  "filteredItems_on lower s =
     list_lowered lower (foodItems s) (searchTerm s) (selectedCategory s) \<and>
   filteredItems s' = filteredItems_on toLowerCase s' \<and>
   filteredItems_on (map f) s =
     list_spec (map f) (foodItems s) (searchTerm s) (selectedCategory s) \<and>
   filteredItems s' = list_spec toLowerCase (foodItems s') (searchTerm s') (selectedCategory s')"
proof -
  have lowered: "filteredItems_on lower s =
      list_lowered lower (foodItems s) (searchTerm s) (selectedCategory s)"
    unfolding filteredItems_on_def list_lowered_def Let_def includes_str_iff is_substring_def
    by (rule filter_cong) auto
  have inst: "filteredItems s' = filteredItems_on toLowerCase s'"
    by (simp add: filteredItems_def filteredItems_on_def)
  have per_unit: "filteredItems_on (map g) t =
      list_spec (map g) (foodItems t) (searchTerm t) (selectedCategory t)" for g and t :: "'b AppState"
    unfolding filteredItems_on_def list_spec_def Let_def includes_map_iff
    by (rule filter_cong) auto
  from lowered inst per_unit [of f s] per_unit [of lower_unit s'] show ?thesis
    by (simp add: toLowerCase_is_map)
qed

text \<open>
  Claim C7. With the empty search term and the selection \<^verbatim>\<open>all\<close> the rendered list is the
  whole catalog, in its order.
\<close>

theorem filteredItems_no_constraint:
  "filteredItems (s\<lparr>searchTerm := '''', selectedCategory := cat_all\<rparr>) = foodItems s"
  by (simp add: filteredItems_def toLowerCase_def includes_str_empty)

text \<open>
  Claim C8. Over the two seed items the search term \<^verbatim>\<open>bread\<close> with the category
  \<^verbatim>\<open>fruits\<close> lists nothing, although the term alone lists the bread and the category
  alone lists the apples.
\<close>

theorem seed_bread_fruits_empty:
  "filteredItems ((initial_state (seed_catalog t1 t2))
      \<lparr>searchTerm := ''bread'', selectedCategory := cat fruits\<rparr>) = [] \<and>
   filteredItems ((initial_state (seed_catalog t1 t2))
      \<lparr>searchTerm := ''bread'', selectedCategory := cat_all\<rparr>) = [seed_catalog t1 t2 ! 1] \<and>
   filteredItems ((initial_state (seed_catalog t1 t2))
      \<lparr>searchTerm := '''', selectedCategory := cat fruits\<rparr>) = [seed_catalog t1 t2 ! 0]"
  by (simp add: filteredItems_def initial_state_def seed_catalog_def seed_search_bread
      toLowerCase_Nil includes_str_empty)


section \<open>The session\<close>

text \<open>
  Claim C6. After logout and login the profile is the canned profile of the selected role:
  it is the same whatever the state before, so two runs that select the same role end
  with the same profile.
\<close>

theorem relogin_profile_of_role_only:
  "currentUser (handleLogin r (handleLogout s)) = Some (login_profile r) \<and>
   currentUser (handleLogin r (handleLogout s)) = currentUser (handleLogin r (handleLogout s'))"
  by (simp add: handleLogin_def handleLogout_def)

text \<open>
  Claim C9. Logout writes the current user and nothing else: the catalog, the search term,
  the selected category, the active tab and the form are what they were, and a login that
  follows starts on the tab that was active before the logout.
\<close>

theorem logout_frame:
  "handleLogout s = s\<lparr>currentUser := None\<rparr> \<and>
   foodItems (handleLogout s) = foodItems s \<and>
   searchTerm (handleLogout s) = searchTerm s \<and>
   selectedCategory (handleLogout s) = selectedCategory s \<and>
   activeTab (handleLogout s) = activeTab s \<and>
   newFoodItem (handleLogout s) = newFoodItem s \<and>
   activeTab (handleLogin r (handleLogout s)) = activeTab s"
  by (simp add: handleLogout_def handleLogin_def)


section \<open>Initialization and persistence\<close>

text \<open>
  Claim C1, as the specification states it, fails: a stored value that is not JSON does
  not give the seed catalog. With \<^verbatim>\<open>{not json\<close> under the key, \<^verbatim>\<open>JSON.parse\<close> throws a
  \<^verbatim>\<open>SyntaxError\<close> and so does the initializer.
\<close>

theorem unparseable_store_raises:
  "JSON_parse ''{not json'' = Inl SyntaxError \<and>
   foodItems_init True (Map.empty(''foodItems'' \<mapsto> ''{not json'')) 0 0 = Inl SyntaxError \<and>
   foodItems_init True (Map.empty(''foodItems'' \<mapsto> ''{not json'')) 0 0 \<noteq>
     Inr (catalog_value (seed_catalog 0 0))"
  by code_simp

text \<open>
  Claim C1, amended. In a browser, when nothing is stored under \<^verbatim>\<open>foodItems\<close> or the stored
  value is the empty string, the catalog is the seed catalog of two items and nothing is
  raised. When the stored value is a non-empty string the outcome is that of
  \<^verbatim>\<open>JSON.parse\<close> on it: its value, or its \<^verbatim>\<open>SyntaxError\<close>. Without a window the catalog is
  empty.
\<close>

theorem foodItems_init_cases:
  "foodItems_init True (localStorage(''foodItems'' := None)) t1 t2 =
     Inr (catalog_value (seed_catalog t1 t2)) \<and>
   foodItems_init True (localStorage(''foodItems'' \<mapsto> [])) t1 t2 =
     Inr (catalog_value (seed_catalog t1 t2)) \<and>
   foodItems_init True (localStorage(''foodItems'' \<mapsto> c # cs)) t1 t2 = JSON_parse (c # cs) \<and>
   foodItems_init False localStorage t1 t2 = Inr (JArr [])"
  by (simp add: foodItems_init_def)

text \<open>
  Claim C5. For every catalog, the initializer run on the store that the persistence
  effect has written returns, without error, the array of the same items in the same
  order, each with its nine properties and the same values, except that \<^verbatim>\<open>postedAt\<close> is
  the ISO string of the creation date where the original holds the \<^verbatim>\<open>Date\<close>.
\<close>

theorem reload_after_persist:
  "foodItems_init True (persist_foodItems items localStorage) t1 t2 =
     Inr (JArr (map (item_object (\<lambda>t. JStr (toISOString t))) items))"
  by (simp add: foodItems_init_def persist_foodItems_def stringify_catalog_not_empty
      JSON_roundtrip storable_catalog reloaded_catalog)


section \<open>Identifiers\<close>

text \<open>
  Claim C4, as the specification states it, fails: the identifier is the clock reading in
  milliseconds, so two submissions at the same reading put two items with the same
  identifier into the catalog.
\<close>

theorem same_millisecond_same_id:
  "\<not> distinct (map id_item (foodItems (run (seed_catalog 0 0)
      (donor_session @
       [Submit 1700000000000 1700000000000, Submit 1700000000000 1700000000000]))))"
  by (simp add: ids_run submit_times_append donor_session_def)

text \<open>
  Claim C4, amended. The seed catalog has no identifier twice, and in every state reached
  from a catalog without an identifier twice, by events whose submissions read pairwise
  different values of \<^verbatim>\<open>Date.now()\<close> none of which prints as an identifier of the initial
  catalog, no two items share an identifier.
\<close>

theorem ids_distinct:
  assumes "distinct (map id_item items)" and "distinct (submit_times evs)"
    and "\<forall>t \<in> set (submit_times evs). Number_toString t \<notin> set (map id_item items)"
  shows "distinct (map id_item (foodItems (run items evs))) \<and>
         distinct (map id_item (seed_catalog t1 t2))"
proof -
  have "inj_on Number_toString (set (submit_times evs))"
    by (rule inj_onI) (rule Number_toString_inj)
  with assms(2) have "distinct (map Number_toString (submit_times evs))"
    by (simp add: distinct_map)
  moreover have "set (map id_item items) \<inter> set (map Number_toString (submit_times evs)) = {}"
    using assms(3) by (auto simp: image_iff) metis
  ultimately have "distinct (map id_item (foodItems (run items evs)))"
    using assms(1) by (simp add: ids_run)
  then show ?thesis by (simp add: seed_catalog_def)
qed

theorem ids_distinct_witness:
  "submit_times two_posts = [5, 7] \<and>
   Number_toString 5 = ''5'' \<and> Number_toString 7 = ''7'' \<and>
   map id_item (seed_catalog 0 0) = [''1'', ''2''] \<and>
   distinct (map id_item (foodItems (run (seed_catalog 0 0) two_posts)))"
proof -
  have times: "submit_times two_posts = [5, 7]"
    by (simp add: two_posts_def donor_session_def submit_times_append)
  have five: "Number_toString 5 = ''5''" by code_simp
  have seven: "Number_toString 7 = ''7''" by code_simp
  have h1: "distinct (map id_item (seed_catalog 0 0))"
    by (simp add: seed_catalog_def)
  have h2: "distinct (submit_times two_posts)"
    by (simp add: times)
  have h3: "\<forall>t \<in> set (submit_times two_posts).
      Number_toString t \<notin> set (map id_item (seed_catalog 0 0))"
    by (simp add: times five seven seed_catalog_def)
  have seed: "map id_item (seed_catalog 0 0) = [''1'', ''2'']"
    by (simp add: seed_catalog_def)
  show ?thesis
    using ids_distinct [OF h1 h2 h3] times five seven seed by blast
qed

end
